theory Spec2Isabelle
  imports Complex_Main "HOL-Library.Sublist"
begin

section \<open>Python values\<close>

text \<open>
  A Python \<open>str\<close> is a sequence of Unicode code points and \<open>len\<close> counts code points,
  so a string is a list of code points here. ASCII literals of the source are written
  through \<open>ascii\<close>; the Chinese literals are written as their code points.
\<close>

type_synonym pystr = "nat list"

definition ascii :: "string \<Rightarrow> pystr" where
  "ascii s = map of_char s"

text \<open>The values a metadata dictionary (\<open>Dict[str, Any]\<close>) holds.\<close>

datatype pyval = PStr pystr | PInt int | PNone

section \<open>Documents (langchain \<open>Document\<close>: \<open>page_content\<close> and \<open>metadata\<close>)\<close>

record document =
  page_content :: pystr
  metadata :: "pystr \<rightharpoonup> pyval"

section \<open>web\_search\_integration.py: \<open>HybridRAGSystem._deduplicate_and_rank\<close>\<close>

text \<open>\<open>doc.page_content[:100]\<close>, the key of the duplicate test.\<close>

definition content_key :: "document \<Rightarrow> pystr" where
  "content_key doc = take 100 (page_content doc)"

text \<open>
  The body shared by the two \<open>for\<close> loops; the state is \<open>(unique_docs, seen_content)\<close>:
  \<^verbatim>\<open>
    content = doc.page_content[:100]
    if content not in seen_content:
        seen_content.add(content)
        unique_docs.append(doc)
  \<close>
\<close>

definition dedup_step :: "document \<Rightarrow> document list \<times> pystr set \<Rightarrow> document list \<times> pystr set" where
  "dedup_step doc st =
     (let content = content_key doc in
      if content \<notin> snd st then (fst st @ [doc], insert content (snd st)) else st)"

text \<open>\<open>doc.metadata.get("source_type") == tag\<close>.\<close>

definition has_source_type :: "pystr \<Rightarrow> document \<Rightarrow> bool" where
  "has_source_type tag doc \<longleftrightarrow> metadata doc (ascii ''source_type'') = Some (PStr tag)"

definition local_docs_of :: "document list \<Rightarrow> document list" where
  "local_docs_of docs = filter (has_source_type (ascii ''local'')) docs"

definition web_docs_of :: "document list \<Rightarrow> document list" where
  "web_docs_of docs = filter (has_source_type (ascii ''web'')) docs"

text \<open>The list \<open>unique_docs\<close> after both loops, before the final slice.\<close>

definition unique_docs_of :: "document list \<Rightarrow> document list" where
  "unique_docs_of docs =
     fst (fold dedup_step (web_docs_of docs) (fold dedup_step (local_docs_of docs) ([], {})))"

definition deduplicate_and_rank :: "document list \<Rightarrow> document list" where
  "deduplicate_and_rank docs = take 8 (unique_docs_of docs)"

text \<open>
  The loop invariant of the two loops: \<open>seen_content\<close> holds exactly the keys of
  \<open>unique_docs\<close>, and no two documents of \<open>unique_docs\<close> share a key.
\<close>

definition seen_ok :: "document list \<times> pystr set \<Rightarrow> bool" where
  "seen_ok st \<longleftrightarrow> snd st = content_key ` set (fst st) \<and> distinct (map content_key (fst st))"

subsection \<open>Example inputs of the merge step\<close>

definition example_doc :: "pystr \<Rightarrow> pystr \<Rightarrow> document" where
  "example_doc tag c = \<lparr>page_content = c, metadata = [ascii ''source_type'' \<mapsto> PStr tag]\<rparr>"

definition long_local :: document where
  "long_local = example_doc (ascii ''local'') (replicate 100 97 @ ascii ''L'')"

definition long_web :: document where
  "long_web = example_doc (ascii ''web'') (replicate 100 97 @ ascii ''W'')"

definition untagged_doc :: document where
  "untagged_doc = \<lparr>page_content = ascii ''no tag'', metadata = Map.empty\<rparr>"

definition nine_locals :: "document list" where
  "nine_locals = map (\<lambda>c. example_doc (ascii ''local'') [c]) [48, 49, 50, 51, 52, 53, 54, 55, 56]"

definition ninth_again :: document where
  "ninth_again = example_doc (ascii ''web'') [56]"

section \<open>retriever\_enhanced.py: \<open>EnhancedRetriever.analyze_retrieval_quality\<close>\<close>

text \<open>
  The report is a Python dictionary; the key \<open>documents_preview\<close> exists only in the
  report of a non-empty list, hence the option. \<open>np.mean\<close> and the score are floats in the
  source and real numbers here.
\<close>

record quality_report =
  query :: pystr
  num_results :: nat
  avg_content_length :: real
  quality_score :: real
  recommendations :: "pystr list"
  documents_preview :: "pystr list option"

text \<open>The four recommendation texts of the source, as code points.\<close>

definition rec_no_documents :: pystr where
  "rec_no_documents = [26410, 26816, 32034, 21040, 25991, 26723, 65292, 35831, 26816, 26597,
     26597, 35810, 25110, 30693, 35782, 24211]"

definition rec_few_results :: pystr where
  "rec_few_results = [26816, 32034, 32467, 26524, 36739, 23569, 65292, 32771, 34385, 38477,
     20302, 30456, 20284, 24230, 38408, 20540]"

definition rec_short_content :: pystr where
  "rec_short_content = [25991, 26723, 29255, 27573, 36739, 30701, 65292, 21487, 33021, 32570,
     20047, 19978, 19979, 25991]"

definition rec_low_quality :: pystr where
  "rec_low_quality = [26816, 32034, 36136, 37327, 20559, 20302, 65292, 24314, 35758, 20248,
     21270, 26597, 35810, 25110, 26816, 32034, 31574, 30053]"

definition analyze_retrieval_quality :: "pystr \<Rightarrow> document list \<Rightarrow> quality_report" where
  "analyze_retrieval_quality q docs =
     (if docs = [] then
        \<lparr>query = q, num_results = 0, avg_content_length = 0, quality_score = 0,
         recommendations = [rec_no_documents], documents_preview = None\<rparr>
      else
        let content_lengths = map (\<lambda>doc. length (page_content doc)) docs;
            avg_length = real (sum_list content_lengths) / real (length content_lengths);
            score = min 100 (real (length docs * 20) + avg_length / 20);
            recs = (if length docs < 3 then [rec_few_results] else [])
                 @ (if avg_length < 100 then [rec_short_content] else [])
                 @ (if score < 60 then [rec_low_quality] else [])
        in \<lparr>query = q, num_results = length docs, avg_content_length = avg_length,
            quality_score = score, recommendations = recs,
            documents_preview =
              Some (map (\<lambda>doc. take 100 (page_content doc) @ ascii ''...'') (take 3 docs))\<rparr>)"

subsection \<open>Example inputs of the quality analysis\<close>

definition passage_200 :: document where
  "passage_200 = \<lparr>page_content = replicate 200 97, metadata = Map.empty\<rparr>"

definition five_passages :: "document list" where
  "five_passages = replicate 5 passage_200"

section \<open>web\_search\_integration.py: \<open>HybridRAGSystem._web_search\<close>\<close>

text \<open>
  \<open>str.lower\<close> is a library function over all of Unicode; the functions that call it take
  it as the parameter \<open>lower\<close>. \<open>ascii_lower\<close> is what it does on text whose cased
  characters are ASCII letters (Chinese characters have no case); the examples use it.
\<close>

definition ascii_lower :: "pystr \<Rightarrow> pystr" where
  "ascii_lower s = map (\<lambda>c. if 65 \<le> c \<and> c \<le> 90 then c + 32 else c) s"

text \<open>
  \<^verbatim>\<open>
    if any(keyword in query.lower() for keyword in [...five Chinese terms...]):
        if len(query) < 20:
            return f"{query} English grammar rules examples"
    return query
  \<close>
\<close>

definition enhance_triggers :: "pystr list" where
  "enhance_triggers =
     [[33521, 35821], [35821, 27861], [29992, 27861], [26102, 24577], [20896, 35789]]"

definition enhance_query :: "(pystr \<Rightarrow> pystr) \<Rightarrow> pystr \<Rightarrow> pystr" where
  "enhance_query lower q =
     (if list_ex (\<lambda>keyword. sublist keyword (lower q)) enhance_triggers \<and> length q < 20
      then q @ ascii '' English grammar rules examples''
      else q)"

text \<open>
  A raw result of an engine is a dictionary with string values; \<open>result.get(key, default)\<close>
  reads it.
\<close>

type_synonym raw_result = "pystr \<rightharpoonup> pystr"

definition result_get :: "raw_result \<Rightarrow> pystr \<Rightarrow> pystr \<Rightarrow> pystr" where
  "result_get result key dflt = (case result key of None \<Rightarrow> dflt | Some v \<Rightarrow> v)"

text \<open>
  An engine is the call \<open>engine.search(query, max_results)\<close>: \<open>None\<close> when the call raises
  (the \<open>except\<close> of \<open>_web_search\<close> logs it and goes on to the next engine), the list of raw
  results otherwise.
\<close>

type_synonym search_engine = "pystr \<Rightarrow> nat \<Rightarrow> raw_result list option"

text \<open>
  The body of the inner loop; it appends one document or nothing:
  \<^verbatim>\<open>
    content = result.get("content", "")
    title = result.get("title", "")
    url = result.get("url", "")
    source = result.get("source", "web")
    if content and len(content) > 50:
        doc = Document(page_content=content, metadata={...})
        web_docs.append(doc)
  \<close>
\<close>

definition web_doc_of_result :: "pystr \<Rightarrow> raw_result \<Rightarrow> document list" where
  "web_doc_of_result enhanced_query result =
     (let content = result_get result (ascii ''content'') [];
          title = result_get result (ascii ''title'') [];
          url = result_get result (ascii ''url'') [];
          source = result_get result (ascii ''source'') (ascii ''web'')
      in if content \<noteq> [] \<and> length content > 50
         then [\<lparr>page_content = content,
                metadata = [ascii ''source'' \<mapsto> PStr url,
                            ascii ''title'' \<mapsto> PStr title,
                            ascii ''source_type'' \<mapsto> PStr (ascii ''web''),
                            ascii ''engine'' \<mapsto> PStr source,
                            ascii ''query'' \<mapsto> PStr enhanced_query]\<rparr>]
         else [])"

text \<open>
  The outer loop over \<open>self.search_engines\<close>. The pause \<open>time.sleep(1)\<close> between engines
  changes no value and is left out.
\<close>

definition web_search :: "(pystr \<Rightarrow> pystr) \<Rightarrow> search_engine list \<Rightarrow> pystr \<Rightarrow> nat \<Rightarrow> document list" where
  "web_search lower search_engines q max_results_per_engine =
     (let enhanced_query = enhance_query lower q in
      concat (map (\<lambda>engine.
        case engine enhanced_query max_results_per_engine of
          None \<Rightarrow> []
        | Some results \<Rightarrow> concat (map (web_doc_of_result enhanced_query) results))
        search_engines))"

subsection \<open>Example inputs of the web search\<close>

definition result_with_content :: "pystr \<Rightarrow> raw_result" where
  "result_with_content c =
     [ascii ''title'' \<mapsto> ascii ''Present perfect'', ascii ''content'' \<mapsto> c,
      ascii ''url'' \<mapsto> ascii ''https://en.wikipedia.org/wiki/Present_perfect'',
      ascii ''source'' \<mapsto> ascii ''Wikipedia'']"

definition fixed_engine :: "raw_result list \<Rightarrow> search_engine" where
  "fixed_engine results = (\<lambda>q max_results. Some results)"

section \<open>conversation\_memory.py: dates and formatted numbers\<close>

text \<open>
  A naive \<open>datetime\<close>, as \<open>datetime.now()\<close> returns it. The type guarantees
  \<open>hour < 24\<close>, \<open>minute < 60\<close> and so on; nothing below depends on it.
\<close>

record pydatetime =
  year :: nat
  month :: nat
  day :: nat
  hour :: nat
  minute :: nat
  second :: nat
  microsecond :: nat

text \<open>\<open>str(n)\<close> of a natural number, and the format \<open>{n:0wd}\<close>.\<close>

fun str_nat :: "nat \<Rightarrow> pystr" where
  "str_nat n = (if n < 10 then [48 + n] else str_nat (n div 10) @ [48 + n mod 10])"

declare str_nat.simps [simp del]

definition zero_pad :: "nat \<Rightarrow> nat \<Rightarrow> pystr" where
  "zero_pad w n = replicate (w - length (str_nat n)) 48 @ str_nat n"

text \<open>\<open>strftime("%H:%M")\<close>, \<open>strftime("%Y-%m-%d %H:%M:%S")\<close>, \<open>strftime("%Y%m%d_%H%M%S")\<close>
  and \<open>isoformat()\<close>. \<open>strftime\<close> writes \<open>%Y\<close> as the C library does, without padding
  (a year below 1000 has fewer than four digits); \<open>isoformat\<close> pads the year to four.\<close>

definition strftime_HM :: "pydatetime \<Rightarrow> pystr" where
  "strftime_HM t = zero_pad 2 (hour t) @ ascii '':'' @ zero_pad 2 (minute t)"

definition strftime_date_time :: "pydatetime \<Rightarrow> pystr" where
  "strftime_date_time t =
     str_nat (year t) @ ascii ''-'' @ zero_pad 2 (month t) @ ascii ''-'' @ zero_pad 2 (day t)
     @ ascii '' '' @ zero_pad 2 (hour t) @ ascii '':'' @ zero_pad 2 (minute t)
     @ ascii '':'' @ zero_pad 2 (second t)"

definition strftime_session :: "pydatetime \<Rightarrow> pystr" where
  "strftime_session t =
     str_nat (year t) @ zero_pad 2 (month t) @ zero_pad 2 (day t) @ ascii ''_''
     @ zero_pad 2 (hour t) @ zero_pad 2 (minute t) @ zero_pad 2 (second t)"

definition isoformat :: "pydatetime \<Rightarrow> pystr" where
  "isoformat t =
     zero_pad 4 (year t) @ ascii ''-'' @ zero_pad 2 (month t) @ ascii ''-'' @ zero_pad 2 (day t)
     @ ascii ''T'' @ zero_pad 2 (hour t) @ ascii '':'' @ zero_pad 2 (minute t)
     @ ascii '':'' @ zero_pad 2 (second t)
     @ (if microsecond t \<noteq> 0 then ascii ''.'' @ zero_pad 6 (microsecond t) else [])"

text \<open>\<open>sep.join(parts)\<close>.\<close>

fun py_join :: "pystr \<Rightarrow> pystr list \<Rightarrow> pystr" where
  "py_join sep [] = []"
| "py_join sep [x] = x"
| "py_join sep (x # y # ys) = x @ sep @ py_join sep (y # ys)"

text \<open>
  The slice \<open>xs[i:]\<close>: a negative start counts from the end and is clamped at the start
  of the list, so \<open>xs[-k:]\<close> is the last \<open>k\<close> elements for \<open>k > 0\<close> and the whole list for
  \<open>k = 0\<close>.
\<close>

definition py_slice_from :: "int \<Rightarrow> 'a list \<Rightarrow> 'a list" where
  "py_slice_from i xs =
     (if i < 0 then drop (nat (int (length xs) + i)) xs else drop (nat i) xs)"

section \<open>conversation\_memory.py: \<open>ConversationTurn\<close> and \<open>ConversationMemory\<close>\<close>

text \<open>The field \<open>metadata\<close> of a turn is \<open>turn_metadata\<close> here: a document has a field of
  that name already.\<close>

record conversation_turn =
  user_query :: pystr
  ai_response :: pystr
  timestamp :: pydatetime
  session_id :: pystr
  turn_metadata :: "pystr \<rightharpoonup> pyval"
  retrieved_docs :: "pystr list"
  context_summary :: pystr
  "keywords" :: "pystr list"

record conversation_memory =
  max_history :: int
  max_context_length :: int
  memory_file :: pystr
  conversation_history :: "conversation_turn list"
  current_session_id :: pystr

subsection \<open>\<open>_extract_keywords\<close>, \<open>_extract_main_topic\<close>, \<open>_generate_summary\<close>\<close>

definition english_grammar_terms :: "pystr list" where
  "english_grammar_terms = map ascii
     [''present perfect'', ''past tense'', ''future tense'', ''conditionals'',
      ''articles'', ''prepositions'', ''conjunctions'', ''verbs'', ''nouns'',
      ''adjectives'', ''adverbs'', ''pronouns'', ''tense'', ''aspect'',
      ''grammar'', ''syntax'', ''clause'', ''phrase'', ''sentence'']"

definition chinese_grammar_terms :: "pystr list" where
  "chinese_grammar_terms =
     [[29616, 22312, 23436, 25104, 26102], [36807, 21435, 26102], [23558, 26469, 26102],
      [34394, 25311, 35821, 27668], [20896, 35789], [20171, 35789], [36830, 35789],
      [21160, 35789], [21517, 35789], [24418, 23481, 35789], [21103, 35789], [20195, 35789],
      [26102, 24577], [20307, 24577], [35821, 27861], [21477, 27861], [20174, 21477],
      [30701, 35821], [21477, 23376]]"

text \<open>
  \<^verbatim>\<open>
    text_lower = text.lower()
    for term in english_grammar_terms + chinese_grammar_terms:
        if term.lower() in text_lower:
            keywords.append(term)
    return list(set(keywords))
  \<close>
  The order of \<open>list(set(...))\<close> is not fixed by Python (it varies with the hash seed);
  the model keeps the order of the vocabulary. The scoring reads a keyword list as a set;
  the text export joins it in its order, so the export of the model fixes one of the
  orders the code can produce. No theorem below depends on the order.
\<close>

definition extract_keywords :: "(pystr \<Rightarrow> pystr) \<Rightarrow> pystr \<Rightarrow> pystr list" where
  "extract_keywords lower text =
     (let text_lower = lower text in
      remdups (filter (\<lambda>grammar_term. sublist (lower grammar_term) text_lower)
                 (english_grammar_terms @ chinese_grammar_terms)))"

definition topics :: "pystr list" where
  "topics = [[26102, 24577], [35821, 27861], [20896, 35789], [34394, 25311, 35821, 27668],
             [26465, 20214, 21477], [20174, 21477]]"

definition extract_main_topic :: "(pystr \<Rightarrow> pystr) \<Rightarrow> pystr \<Rightarrow> pystr" where
  "extract_main_topic lower text =
     (let text_lower = lower text in
      case find (\<lambda>topic. sublist topic text_lower) topics of
        Some topic \<Rightarrow> topic
      | None \<Rightarrow> [33521, 35821, 35821, 27861])"

definition generate_summary :: "(pystr \<Rightarrow> pystr) \<Rightarrow> pystr \<Rightarrow> pystr \<Rightarrow> pystr" where
  "generate_summary lower uq ar =
     [29992, 25143, 35810, 38382, 20102, 20851, 20110] @ extract_main_topic lower uq
     @ [30340, 38382, 39064]"

subsection \<open>\<open>__init__\<close> and \<open>_load_history\<close>\<close>

text \<open>
  The file, when it exists and parses, holds a list of turns; \<open>_load_history\<close> appends
  \<open>history_data[-self.max_history:]\<close>. \<open>None\<close> is the absent file.
\<close>

definition load_history :: "conversation_memory \<Rightarrow> conversation_turn list option \<Rightarrow> conversation_memory" where
  "load_history self stored =
     (case stored of
        None \<Rightarrow> self
      | Some history_data \<Rightarrow>
          self\<lparr>conversation_history :=
                 conversation_history self @ py_slice_from (- max_history self) history_data\<rparr>)"

definition init_memory ::
  "int \<Rightarrow> int \<Rightarrow> pystr \<Rightarrow> pydatetime \<Rightarrow> conversation_turn list option \<Rightarrow> conversation_memory" where
  "init_memory mh mcl file now stored =
     load_history
       \<lparr>max_history = mh, max_context_length = mcl, memory_file = file,
        conversation_history = [], current_session_id = strftime_session now\<rparr>
       stored"

subsection \<open>\<open>add_conversation_turn\<close>\<close>

text \<open>
  \<open>now\<close> is the value of \<open>datetime.now()\<close>; the optional arguments are \<open>None\<close> by default
  (\<open>metadata or {}\<close>, \<open>retrieved_docs or []\<close>). \<open>_save_history\<close> writes the file, catches
  its own errors and changes no field of the object.
\<close>

definition new_turn ::
  "(pystr \<Rightarrow> pystr) \<Rightarrow> pydatetime \<Rightarrow> pystr \<Rightarrow> pystr \<Rightarrow> pystr \<Rightarrow>
     (pystr \<rightharpoonup> pyval) option \<Rightarrow> pystr list option \<Rightarrow> conversation_turn" where
  "new_turn lower now sid uq ar md rd =
     \<lparr>user_query = uq, ai_response = ar, timestamp = now, session_id = sid,
      turn_metadata = (case md of None \<Rightarrow> Map.empty | Some m \<Rightarrow> m),
      retrieved_docs = (case rd of None \<Rightarrow> [] | Some ds \<Rightarrow> ds),
      context_summary = generate_summary lower uq ar,
      keywords = extract_keywords lower (uq @ ascii '' '' @ ar)\<rparr>"

definition add_conversation_turn ::
  "(pystr \<Rightarrow> pystr) \<Rightarrow> pydatetime \<Rightarrow> conversation_memory \<Rightarrow> pystr \<Rightarrow> pystr \<Rightarrow>
     (pystr \<rightharpoonup> pyval) option \<Rightarrow> pystr list option \<Rightarrow> conversation_memory" where
  "add_conversation_turn lower now self uq ar md rd =
     (let turn = new_turn lower now (current_session_id self) uq ar md rd;
          history = conversation_history self @ [turn]
      in if int (length history) > max_history self
         then self\<lparr>conversation_history := py_slice_from (- max_history self) history\<rparr>
         else self\<lparr>conversation_history := history\<rparr>)"

text \<open>A sequence of calls; a call is the clock reading and the four arguments.\<close>

type_synonym turn_call =
  "pydatetime \<times> pystr \<times> pystr \<times> (pystr \<rightharpoonup> pyval) option \<times> pystr list option"

fun add_call :: "(pystr \<Rightarrow> pystr) \<Rightarrow> turn_call \<Rightarrow> conversation_memory \<Rightarrow> conversation_memory" where
  "add_call lower (now, uq, ar, md, rd) self = add_conversation_turn lower now self uq ar md rd"

fun call_turn :: "(pystr \<Rightarrow> pystr) \<Rightarrow> pystr \<Rightarrow> turn_call \<Rightarrow> conversation_turn" where
  "call_turn lower sid (now, uq, ar, md, rd) = new_turn lower now sid uq ar md rd"

definition add_turns :: "(pystr \<Rightarrow> pystr) \<Rightarrow> conversation_memory \<Rightarrow> turn_call list \<Rightarrow> conversation_memory" where
  "add_turns lower self calls = fold (add_call lower) calls self"

subsection \<open>\<open>_get_relevant_context\<close>\<close>

text \<open>\<open>xs.index(x)\<close> for an element of the list: the position of its first occurrence.\<close>

definition list_index :: "'a list \<Rightarrow> 'a \<Rightarrow> nat" where
  "list_index xs x = length (takeWhile (\<lambda>y. y \<noteq> x) xs)"

text \<open>
  \<^verbatim>\<open>
    overlap = len(current_keywords & turn_keywords)
    recency_score = len(self.conversation_history) - self.conversation_history.index(turn)
    total_score = overlap * 2 + recency_score
  \<close>
\<close>

definition total_score :: "conversation_turn list \<Rightarrow> pystr set \<Rightarrow> conversation_turn \<Rightarrow> int" where
  "total_score history current_keywords turn =
     (let overlap = card (current_keywords \<inter> set (keywords turn));
          recency_score = int (length history) - int (list_index history turn)
      in int overlap * 2 + recency_score)"

definition scored_turns :: "(pystr \<Rightarrow> pystr) \<Rightarrow> conversation_memory \<Rightarrow> pystr \<Rightarrow> (int \<times> conversation_turn) list" where
  "scored_turns lower self current_query =
     (let current_keywords = set (extract_keywords lower current_query) in
      map (\<lambda>turn. (total_score (conversation_history self) current_keywords turn, turn))
        (py_slice_from (- 5) (conversation_history self)))"

text \<open>\<open>scored_turns.sort(key=lambda x: x[0], reverse=True)\<close>: a stable sort, descending.\<close>

definition get_relevant_context :: "(pystr \<Rightarrow> pystr) \<Rightarrow> conversation_memory \<Rightarrow> pystr \<Rightarrow> conversation_turn list" where
  "get_relevant_context lower self current_query =
     (if conversation_history self = [] then []
      else map snd (sort_key (\<lambda>x. - fst x) (scored_turns lower self current_query)))"

subsection \<open>\<open>_format_context_turn\<close> and \<open>get_context_for_query\<close>\<close>

definition format_context_turn :: "conversation_turn \<Rightarrow> pystr" where
  "format_context_turn turn =
     ascii ''**['' @ strftime_HM (timestamp turn) @ [93, 32, 29992, 25143, 58, 42, 42, 32]
     @ user_query turn @ [10, 42, 42, 21161, 25163, 58, 42, 42, 32] @ ai_response turn"

text \<open>\<open>max_length or self.max_context_length\<close>: \<open>None\<close> and \<open>0\<close> both give the default.\<close>

definition effective_max_length :: "int option \<Rightarrow> conversation_memory \<Rightarrow> int" where
  "effective_max_length max_length self =
     (case max_length of
        None \<Rightarrow> max_context_length self
      | Some l \<Rightarrow> if l = 0 then max_context_length self else l)"

text \<open>
  The loop over the ranked turns, on their formatted snippets; the arguments are
  \<open>max_length\<close>, \<open>current_length\<close> and the snippets still to come:
  \<^verbatim>\<open>
    if current_length + len(context_snippet) > max_length:
        break
    context_parts.append(context_snippet)
    current_length += len(context_snippet)
  \<close>
\<close>

fun collect_parts :: "int \<Rightarrow> int \<Rightarrow> pystr list \<Rightarrow> pystr list" where
  "collect_parts max_length current_length [] = []"
| "collect_parts max_length current_length (context_snippet # rest) =
     (if current_length + int (length context_snippet) > max_length then []
      else context_snippet #
           collect_parts max_length (current_length + int (length context_snippet)) rest)"

definition context_parts :: "(pystr \<Rightarrow> pystr) \<Rightarrow> conversation_memory \<Rightarrow> pystr \<Rightarrow> int option \<Rightarrow> pystr list" where
  "context_parts lower self current_query max_length =
     collect_parts (effective_max_length max_length self) 0
       (map format_context_turn (get_relevant_context lower self current_query))"

definition context_header :: "nat \<Rightarrow> pystr" where
  "context_header n =
     [128221, 32, 42, 42, 23545, 35805, 21382, 21490, 32, 40, 26368, 36817] @ str_nat n
     @ [36718, 41, 58, 42, 42, 10, 10]"

definition get_context_for_query :: "(pystr \<Rightarrow> pystr) \<Rightarrow> conversation_memory \<Rightarrow> pystr \<Rightarrow> int option \<Rightarrow> pystr" where
  "get_context_for_query lower self current_query max_length =
     (if conversation_history self = [] then []
      else let parts = context_parts lower self current_query max_length in
           if parts = [] then []
           else context_header (length parts) @ py_join [10, 10] parts)"


subsection \<open>Example inputs of the conversation memory\<close>

definition example_time :: pydatetime where
  "example_time = \<lparr>year = 2025, month = 3, day = 14, hour = 9, minute = 5, second = 0,
     microsecond = 0\<rparr>"

definition numbered_call :: "nat \<Rightarrow> turn_call" where
  "numbered_call i = (example_time, ascii ''question '' @ [97 + i], ascii ''answer'', None, None)"

definition eleven_calls :: "turn_call list" where
  "eleven_calls = map numbered_call [0, 1, 2, 3, 4, 5, 6, 7, 8, 9, 10]"

definition memory_file_name :: pystr where
  "memory_file_name = ascii ''conversation_history.json''"

definition hello_turn :: conversation_turn where
  "hello_turn = new_turn ascii_lower example_time (strftime_session example_time)
     (ascii ''hello'') (ascii ''hi'') None None"

definition thanks_turn :: conversation_turn where
  "thanks_turn = new_turn ascii_lower (example_time\<lparr>minute := 6\<rparr>) (strftime_session example_time)
     (ascii ''thanks'') (ascii ''bye'') None None"

definition example_memory :: conversation_memory where
  "example_memory =
     add_turns ascii_lower (init_memory 10 2000 memory_file_name example_time None)
       [(example_time, ascii ''hello'', ascii ''hi'', None, None),
        (example_time\<lparr>minute := 6\<rparr>, ascii ''thanks'', ascii ''bye'', None, None)]"

section \<open>conversation\_memory.py: \<open>export_conversation\<close>\<close>

text \<open>
  The values handed to \<open>json.dumps\<close>, and what \<open>json.dumps(obj, ensure_ascii=False,
  indent=2)\<close> writes for them: strings are quoted, with the quote, the backslash and the
  control characters below U+0020 escaped and every other character kept; a non-empty list
  or dictionary has one item per line, indented by two spaces for each level.
\<close>

datatype json = JString pystr | JArray "json list" | JObject "(pystr \<times> json) list"

definition hex_digit :: "nat \<Rightarrow> nat" where
  "hex_digit d = (if d < 10 then 48 + d else 87 + d)"

definition json_escape :: "nat \<Rightarrow> pystr" where
  "json_escape c =
     (if c = 92 then [92, 92]
      else if c = 34 then [92, 34]
      else if c = 8 then [92, 98]
      else if c = 12 then [92, 102]
      else if c = 10 then [92, 110]
      else if c = 13 then [92, 114]
      else if c = 9 then [92, 116]
      else if c < 32 then [92, 117, 48, 48, hex_digit (c div 16), hex_digit (c mod 16)]
      else [c])"

definition encode_basestring :: "pystr \<Rightarrow> pystr" where
  "encode_basestring s = [34] @ concat (map json_escape s) @ [34]"

definition newline_indent :: "nat \<Rightarrow> pystr" where
  "newline_indent level = 10 # replicate (2 * level) 32"

fun iterencode :: "nat \<Rightarrow> json \<Rightarrow> pystr" where
  "iterencode level (JString s) = encode_basestring s"
| "iterencode level (JArray lst) =
     (if lst = [] then ascii ''[]''
      else [91] @ newline_indent (Suc level)
           @ py_join ([44] @ newline_indent (Suc level)) (map (iterencode (Suc level)) lst)
           @ newline_indent level @ [93])"
| "iterencode level (JObject dct) =
     (if dct = [] then ascii ''{}''
      else [123] @ newline_indent (Suc level)
           @ py_join ([44] @ newline_indent (Suc level))
               (map (\<lambda>kv. encode_basestring (fst kv) @ [58, 32] @ iterencode (Suc level) (snd kv)) dct)
           @ newline_indent level @ [125])"

definition json_dumps :: "json \<Rightarrow> pystr" where
  "json_dumps obj = iterencode 0 obj"

definition export_as_json :: "conversation_memory \<Rightarrow> pystr" where
  "export_as_json self =
     json_dumps (JArray (map (\<lambda>turn. JObject
       [(ascii ''timestamp'', JString (isoformat (timestamp turn))),
        (ascii ''user'', JString (user_query turn)),
        (ascii ''assistant'', JString (ai_response turn)),
        (ascii ''session'', JString (session_id turn)),
        (ascii ''keywords'', JArray (map JString (keywords turn)))])
       (conversation_history self)))"

text \<open>The lines \<open>_export_as_text\<close> appends for the turn numbered \<open>i\<close> (from 1).\<close>

definition export_turn_lines :: "nat \<Rightarrow> conversation_turn \<Rightarrow> pystr list" where
  "export_turn_lines i turn =
     [[10] @ ascii ''['' @ str_nat i @ ascii ''] '' @ strftime_date_time (timestamp turn),
      [29992, 25143, 58, 32] @ user_query turn,
      [21161, 25163, 58, 32] @ ai_response turn]
     @ (if keywords turn \<noteq> [] then [[20851, 38190, 35789, 58, 32] @ py_join (ascii '', '') (keywords turn)]
        else [])
     @ [replicate 40 45]"

definition export_as_text :: "conversation_memory \<Rightarrow> pystr" where
  "export_as_text self =
     py_join [10]
       ([replicate 60 61, [23545, 35805, 21382, 21490, 23548, 20986], replicate 60 61]
        @ concat (map (\<lambda>(i, turn). export_turn_lines i turn)
            (zip [1..<Suc (length (conversation_history self))] (conversation_history self))))"

text \<open>\<open>raise ValueError("Unsupported export format")\<close> is the error value.\<close>

datatype error = ValueError pystr

definition export_conversation :: "conversation_memory \<Rightarrow> pystr \<Rightarrow> error + pystr" where
  "export_conversation self fmt =
     (if fmt = ascii ''json'' then Inr (export_as_json self)
      else if fmt = ascii ''txt'' then Inr (export_as_text self)
      else Inl (ValueError (ascii ''Unsupported export format'')))"

section \<open>Properties of the merge step\<close>


subsection \<open>The loop of the merge step\<close>

lemma dedup_step_fst_subset:
  "set (fst (dedup_step d st)) \<subseteq> insert d (set (fst st))"
  by (auto simp: dedup_step_def Let_def)

lemma fold_dedup_subset:
  "set (fst (fold dedup_step xs st)) \<subseteq> set (fst st) \<union> set xs"
proof (induction xs arbitrary: st)
  case Nil
  show ?case by simp
next
  case (Cons x xs)
  have "set (fst (fold dedup_step xs (dedup_step x st))) \<subseteq> set (fst (dedup_step x st)) \<union> set xs"
    by (rule Cons.IH)
  with dedup_step_fst_subset [of x st] show ?case by auto
qed

lemma seen_ok_step: "seen_ok st \<Longrightarrow> seen_ok (dedup_step d st)"
  by (auto simp: seen_ok_def dedup_step_def Let_def)

lemma seen_ok_fold: "seen_ok st \<Longrightarrow> seen_ok (fold dedup_step xs st)"
  by (induction xs arbitrary: st) (simp_all add: seen_ok_step)

lemma seen_ok_init: "seen_ok ([], {})"
  by (simp add: seen_ok_def)

lemma fold_dedup_keys:
  "seen_ok st \<Longrightarrow> snd (fold dedup_step xs st) = snd st \<union> content_key ` set xs"
proof (induction xs arbitrary: st)
  case Nil
  show ?case by simp
next
  case (Cons x xs)
  have "seen_ok (dedup_step x st)" using Cons.prems by (rule seen_ok_step)
  then have "snd (fold dedup_step xs (dedup_step x st)) = snd (dedup_step x st) \<union> content_key ` set xs"
    by (rule Cons.IH)
  moreover have "snd (dedup_step x st) = insert (content_key x) (snd st)"
    by (auto simp: dedup_step_def Let_def)
  ultimately show ?case by auto
qed

lemma fold_dedup_extends:
  "\<exists>ys. fst (fold dedup_step xs st) = fst st @ ys \<and> set ys \<subseteq> set xs \<and>
      (\<forall>d \<in> set ys. content_key d \<notin> snd st \<and> find (\<lambda>x. content_key x = content_key d) xs = Some d)"
proof (induction xs arbitrary: st)
  case Nil
  show ?case by simp
next
  case (Cons x xs)
  obtain ys where ys: "fst (fold dedup_step xs (dedup_step x st)) = fst (dedup_step x st) @ ys"
    "set ys \<subseteq> set xs"
    "\<forall>d \<in> set ys. content_key d \<notin> snd (dedup_step x st) \<and> find (\<lambda>x. content_key x = content_key d) xs = Some d"
    using Cons.IH [of "dedup_step x st"] by blast
  show ?case
  proof (cases "content_key x \<in> snd st")
    case True
    then have "dedup_step x st = st" by (simp add: dedup_step_def)
    with ys True show ?thesis by (intro exI [of _ ys]) auto
  next
    case False
    then have st: "dedup_step x st = (fst st @ [x], insert (content_key x) (snd st))"
      by (simp add: dedup_step_def)
    with ys False show ?thesis by (intro exI [of _ "x # ys"]) auto
  qed
qed


lemma unique_docs_split:
  "\<exists>ys. unique_docs_of docs = fst (fold dedup_step (local_docs_of docs) ([], {})) @ ys \<and>
        set ys \<subseteq> set (web_docs_of docs) \<and>
        (\<forall>d \<in> set ys. content_key d \<notin> content_key ` set (local_docs_of docs))"
proof -
  let ?st1 = "fold dedup_step (local_docs_of docs) ([], {})"
  have "snd ?st1 = content_key ` set (local_docs_of docs)"
    using fold_dedup_keys [OF seen_ok_init, of "local_docs_of docs"] by simp
  with fold_dedup_extends [of "web_docs_of docs" ?st1] show ?thesis
    unfolding unique_docs_of_def by auto
qed

lemma local_part_first:
  "d \<in> set (fst (fold dedup_step xs ([], {}))) \<Longrightarrow>
     find (\<lambda>x. content_key x = content_key d) xs = Some d"
  using fold_dedup_extends [of xs "([], {})"] by auto

lemma local_part_length:
  "length (fst (fold dedup_step xs ([], {}))) = card (content_key ` set xs)"
proof -
  let ?st = "fold dedup_step xs ([], {})"
  have ok: "seen_ok ?st" by (rule seen_ok_fold [OF seen_ok_init])
  have "snd ?st = content_key ` set xs"
    using fold_dedup_keys [OF seen_ok_init, of xs] by simp
  with ok have keys: "content_key ` set xs = set (map content_key (fst ?st))"
    by (simp add: seen_ok_def)
  from ok have "distinct (map content_key (fst ?st))" by (simp add: seen_ok_def)
  then have "card (set (map content_key (fst ?st))) = length (map content_key (fst ?st))"
    by (rule distinct_card)
  with keys show ?thesis by simp
qed

lemma unique_docs_distinct: "distinct (map content_key (unique_docs_of docs))"
  using seen_ok_fold [OF seen_ok_fold [OF seen_ok_init]]
  by (simp add: unique_docs_of_def seen_ok_def)

lemma unique_docs_keys:
  "content_key ` set (unique_docs_of docs) =
     content_key ` (set (local_docs_of docs) \<union> set (web_docs_of docs))"
proof -
  let ?st1 = "fold dedup_step (local_docs_of docs) ([], {})"
  let ?st2 = "fold dedup_step (web_docs_of docs) ?st1"
  have ok1: "seen_ok ?st1" by (rule seen_ok_fold [OF seen_ok_init])
  have ok2: "seen_ok ?st2" by (rule seen_ok_fold [OF ok1])
  have "snd ?st2 = snd ?st1 \<union> content_key ` set (web_docs_of docs)"
    by (rule fold_dedup_keys [OF ok1])
  moreover have "snd ?st1 = content_key ` set (local_docs_of docs)"
    using fold_dedup_keys [OF seen_ok_init, of "local_docs_of docs"] by simp
  moreover have "snd ?st2 = content_key ` set (fst ?st2)" using ok2 by (simp add: seen_ok_def)
  ultimately show ?thesis by (auto simp: unique_docs_of_def)
qed

lemma distinct_count_list: "distinct xs \<Longrightarrow> count_list xs x = (if x \<in> set xs then 1 else 0)"
  by (induction xs) auto

text \<open>
  Where the cut falls: a prefix of the local passages is among the first 8 keys exactly
  when fewer than 8 distinct prefixes occur before its first local occurrence.
\<close>

lemma take_hits_iff:
  "p \<notin> set A \<Longrightarrow> p \<notin> set B \<Longrightarrow> p \<in> set (take k (A @ p # B)) \<longleftrightarrow> length A < k"
proof (cases "length A < k")
  case True
  then obtain j where "k - length A = Suc j" by (cases "k - length A") auto
  with True show ?thesis by simp
next
  case False
  assume "p \<notin> set A"
  moreover from False have "take k (A @ p # B) = take k A" by simp
  ultimately show ?thesis using False by (auto dest: in_set_takeD)
qed

lemma local_part_position:
  assumes "p \<in> content_key ` set xs"
  shows "\<exists>d zs. fst (fold dedup_step xs ([], {})) =
           fst (fold dedup_step (takeWhile (\<lambda>x. content_key x \<noteq> p) xs) ([], {})) @ d # zs \<and>
           content_key d = p"
proof -
  let ?pre = "takeWhile (\<lambda>x. content_key x \<noteq> p) xs"
  let ?st = "fold dedup_step ?pre ([], {})"
  have "dropWhile (\<lambda>x. content_key x \<noteq> p) xs \<noteq> []" using assms by auto
  then obtain d post where dw: "dropWhile (\<lambda>x. content_key x \<noteq> p) xs = d # post"
    by (cases "dropWhile (\<lambda>x. content_key x \<noteq> p) xs") auto
  then have kd: "content_key d = p" using hd_dropWhile [of "\<lambda>x. content_key x \<noteq> p" xs] by auto
  have xs: "xs = ?pre @ d # post" using dw takeWhile_dropWhile_id [of "\<lambda>x. content_key x \<noteq> p" xs] by simp
  have "snd ?st = content_key ` set ?pre"
    using fold_dedup_keys [OF seen_ok_init, of ?pre] by simp
  moreover have "p \<notin> content_key ` set ?pre" by (auto dest: set_takeWhileD)
  ultimately have step: "dedup_step d ?st = (fst ?st @ [d], insert p (snd ?st))"
    using kd by (simp add: dedup_step_def)
  obtain zs where "fst (fold dedup_step post (dedup_step d ?st)) = fst (dedup_step d ?st) @ zs"
    using fold_dedup_extends [of post "dedup_step d ?st"] by blast
  then have "fst (fold dedup_step (?pre @ d # post) ([], {})) = fst ?st @ d # zs"
    by (simp add: step)
  with xs kd show ?thesis by metis
qed

lemma returned_iff_position:
  assumes "p \<in> content_key ` set (local_docs_of docs)"
  shows "p \<in> set (map content_key (deduplicate_and_rank docs)) \<longleftrightarrow>
         card (content_key ` set (takeWhile (\<lambda>x. content_key x \<noteq> p) (local_docs_of docs))) < 8"
proof -
  let ?pre = "takeWhile (\<lambda>x. content_key x \<noteq> p) (local_docs_of docs)"
  let ?A = "fst (fold dedup_step ?pre ([], {}))"
  obtain d zs where U1: "fst (fold dedup_step (local_docs_of docs) ([], {})) = ?A @ d # zs"
    and kd: "content_key d = p"
    using local_part_position [OF assms] by blast
  obtain ys where U: "unique_docs_of docs = fst (fold dedup_step (local_docs_of docs) ([], {})) @ ys"
    using unique_docs_split [of docs] by blast
  have keys: "map content_key (unique_docs_of docs) =
      map content_key ?A @ p # map content_key (zs @ ys)"
    by (simp add: U U1 kd)
  have "distinct (map content_key (unique_docs_of docs))" by (rule unique_docs_distinct)
  then have nA: "p \<notin> set (map content_key ?A)" and nB: "p \<notin> set (map content_key (zs @ ys))"
    unfolding keys by auto
  have "map content_key (deduplicate_and_rank docs) =
      take 8 (map content_key ?A @ p # map content_key (zs @ ys))"
    unfolding deduplicate_and_rank_def take_map keys [symmetric] by (rule refl)
  then have "p \<in> set (map content_key (deduplicate_and_rank docs)) \<longleftrightarrow>
      length (map content_key ?A) < 8"
    using take_hits_iff [OF nA nB, of 8] by simp
  then show ?thesis by (simp add: local_part_length)
qed

lemmas merge_defs = deduplicate_and_rank_def unique_docs_of_def local_docs_of_def web_docs_of_def
  has_source_type_def dedup_step_def content_key_def ascii_def Let_def

subsection \<open>The cap, the source types and the duplicates\<close>

text \<open>
  Claim C4. For every input list (the local passages followed by the web passages), the
  output of the deduplicate-and-rank step has at most 8 elements.
\<close>

theorem C4_merge_cap: "length (deduplicate_and_rank docs) \<le> 8"
  by (simp add: deduplicate_and_rank_def)

text \<open>
  Claim C10. A passage whose metadata \<open>source_type\<close> is neither \<open>"local"\<close> nor
  \<open>"web"\<close> (a missing \<open>source_type\<close> included) is in neither of the two filtered lists,
  so it never appears in the merged output, whatever the length of that output.
\<close>

theorem C10_untagged_dropped:
  "\<not> has_source_type (ascii ''local'') d \<Longrightarrow> \<not> has_source_type (ascii ''web'') d \<Longrightarrow>
     d \<notin> set (deduplicate_and_rank docs)"
proof
  assume nl: "\<not> has_source_type (ascii ''local'') d" and nw: "\<not> has_source_type (ascii ''web'') d"
    and "d \<in> set (deduplicate_and_rank docs)"
  then have "d \<in> set (unique_docs_of docs)"
    by (auto simp: deduplicate_and_rank_def dest: in_set_takeD)
  then have "d \<in> set (local_docs_of docs) \<or> d \<in> set (web_docs_of docs)"
    using fold_dedup_subset [of "web_docs_of docs" "fold dedup_step (local_docs_of docs) ([], {})"]
      fold_dedup_subset [of "local_docs_of docs" "([], {})"]
    by (auto simp: unique_docs_of_def)
  with nl nw show False by (auto simp: local_docs_of_def web_docs_of_def)
qed


text \<open>
  Witness for C10: an untagged passage next to a local one is dropped although the output
  holds a single passage.
\<close>

theorem C10_witness:
  "\<not> has_source_type (ascii ''local'') untagged_doc \<and>
   \<not> has_source_type (ascii ''web'') untagged_doc \<and>
   untagged_doc \<notin> set (deduplicate_and_rank [untagged_doc, long_local]) \<and>
   length (deduplicate_and_rank [untagged_doc, long_local]) < 8"
proof -
  have nl: "\<not> has_source_type (ascii ''local'') untagged_doc"
    by (simp add: untagged_doc_def has_source_type_def ascii_def)
  have nw: "\<not> has_source_type (ascii ''web'') untagged_doc"
    by (simp add: untagged_doc_def has_source_type_def ascii_def)
  have len: "length (deduplicate_and_rank [untagged_doc, long_local]) < 8"
    by (simp add: untagged_doc_def example_doc_def long_local_def merge_defs)
  from C10_untagged_dropped [OF nl nw, of "[untagged_doc, long_local]"] nl nw len
  show ?thesis by blast
qed


text \<open>
  Claim C3, as amended. When a local passage and a web passage share the first 100
  characters of their content, the list built by the two loops holds exactly one passage
  with that prefix; the returned list (its first 8 elements) holds at most one; every
  returned passage with that prefix is the first local passage that has it, never the web
  one; it is returned whenever the local passages have at most 8 distinct prefixes; and in
  general it is returned exactly when fewer than 8 distinct prefixes occur among the local
  passages before the first local passage with that prefix. The key is the raw prefix:
  nothing is normalised.
\<close>

theorem C3_dedup_local_first:
  assumes l: "l \<in> set (local_docs_of docs)"
    and w: "w \<in> set (web_docs_of docs)"
    and same: "content_key l = content_key w"
  shows "count_list (map content_key (unique_docs_of docs)) (content_key w) = 1 \<and>
         count_list (map content_key (deduplicate_and_rank docs)) (content_key w) \<le> 1 \<and>
         (\<forall>d \<in> set (deduplicate_and_rank docs). content_key d = content_key w \<longrightarrow>
            find (\<lambda>x. content_key x = content_key w) (local_docs_of docs) = Some d) \<and>
         (card (content_key ` set (local_docs_of docs)) \<le> 8 \<longrightarrow>
            count_list (map content_key (deduplicate_and_rank docs)) (content_key w) = 1) \<and>
         (count_list (map content_key (deduplicate_and_rank docs)) (content_key w) = 1 \<longleftrightarrow>
            card (content_key ` set (takeWhile (\<lambda>x. content_key x \<noteq> content_key w)
              (local_docs_of docs))) < 8)"
proof -
  let ?p = "content_key w"
  let ?U1 = "fst (fold dedup_step (local_docs_of docs) ([], {}))"
  obtain ys where U: "unique_docs_of docs = ?U1 @ ys"
    and ys: "\<forall>d \<in> set ys. content_key d \<notin> content_key ` set (local_docs_of docs)"
    using unique_docs_split [of docs] by blast
  have pin: "?p \<in> content_key ` set (local_docs_of docs)" using l same [symmetric] by (rule image_eqI [rotated])
  have dU: "distinct (map content_key (unique_docs_of docs))" by (rule unique_docs_distinct)
  have "?p \<in> set (map content_key (unique_docs_of docs))"
    using unique_docs_keys [of docs] pin by auto
  with dU have c1: "count_list (map content_key (unique_docs_of docs)) ?p = 1"
    by (simp add: distinct_count_list)
  have dT: "distinct (map content_key (deduplicate_and_rank docs))"
    using dU by (simp add: deduplicate_and_rank_def take_map [symmetric] del: take_map)
  then have c2: "count_list (map content_key (deduplicate_and_rank docs)) ?p \<le> 1"
    by (simp add: distinct_count_list)
  have c3: "\<forall>d \<in> set (deduplicate_and_rank docs). content_key d = ?p \<longrightarrow>
      find (\<lambda>x. content_key x = ?p) (local_docs_of docs) = Some d"
  proof (intro ballI impI)
    fix d assume d: "d \<in> set (deduplicate_and_rank docs)" and k: "content_key d = ?p"
    from d have "d \<in> set (unique_docs_of docs)"
      by (auto simp: deduplicate_and_rank_def dest: in_set_takeD)
    with U have "d \<in> set ?U1 \<or> d \<in> set ys" by auto
    moreover have "d \<notin> set ys" using ys k pin by auto
    ultimately have "d \<in> set ?U1" by blast
    then show "find (\<lambda>x. content_key x = ?p) (local_docs_of docs) = Some d"
      using local_part_first [of d "local_docs_of docs"] k by simp
  qed
  have c4: "card (content_key ` set (local_docs_of docs)) \<le> 8 \<longrightarrow>
      count_list (map content_key (deduplicate_and_rank docs)) ?p = 1"
  proof
    assume "card (content_key ` set (local_docs_of docs)) \<le> 8"
    then have len: "length ?U1 \<le> 8" by (simp add: local_part_length)
    have "?p \<in> content_key ` set ?U1"
      using fold_dedup_keys [OF seen_ok_init, of "local_docs_of docs"]
        seen_ok_fold [OF seen_ok_init, of "local_docs_of docs"] pin
      by (simp add: seen_ok_def)
    moreover have "set ?U1 \<subseteq> set (deduplicate_and_rank docs)"
      using len by (simp add: deduplicate_and_rank_def U)
    ultimately have "?p \<in> set (map content_key (deduplicate_and_rank docs))" by auto
    with dT show "count_list (map content_key (deduplicate_and_rank docs)) ?p = 1"
      by (simp add: distinct_count_list)
  qed
  have c5: "count_list (map content_key (deduplicate_and_rank docs)) ?p = 1 \<longleftrightarrow>
      card (content_key ` set (takeWhile (\<lambda>x. content_key x \<noteq> ?p) (local_docs_of docs))) < 8"
    using returned_iff_position [OF pin] dT by (simp add: distinct_count_list)
  from c1 c2 c3 c4 c5 show ?thesis by blast
qed

text \<open>
  Witness for C3: two passages that agree on their first 100 characters and differ in
  the 101st; the local one is returned.
\<close>

theorem C3_witness:
  "long_local \<in> set (local_docs_of [long_local, long_web]) \<and>
   long_web \<in> set (web_docs_of [long_local, long_web]) \<and>
   content_key long_local = content_key long_web \<and>
   card (content_key ` set (local_docs_of [long_local, long_web])) \<le> 8 \<and>
   deduplicate_and_rank [long_local, long_web] = [long_local] \<and>
   count_list (map content_key (deduplicate_and_rank [long_local, long_web])) (content_key long_web) = 1"
proof -
  note ex = example_doc_def long_local_def long_web_def
  have l: "long_local \<in> set (local_docs_of [long_local, long_web])"
    by (simp add: ex merge_defs)
  have w: "long_web \<in> set (web_docs_of [long_local, long_web])"
    by (simp add: ex merge_defs)
  have same: "content_key long_local = content_key long_web"
    by (simp add: ex merge_defs)
  have c: "card (content_key ` set (local_docs_of [long_local, long_web])) \<le> 8"
    by (simp add: ex merge_defs)
  have out: "deduplicate_and_rank [long_local, long_web] = [long_local]"
    by (simp add: ex merge_defs)
  from C3_dedup_local_first [OF l w same] l w same c out show ?thesis by blast
qed

text \<open>
  The claim as stated ("exactly one in the merged output") fails when eight distinct
  prefixes come before the shared one among the local passages: the slice \<open>[:8]\<close> cuts
  the local passage, and the web copy was already rejected as a duplicate.
\<close>

theorem C3_counterexample:
  "nine_locals ! 8 \<in> set (local_docs_of (nine_locals @ [ninth_again])) \<and>
   ninth_again \<in> set (web_docs_of (nine_locals @ [ninth_again])) \<and>
   content_key (nine_locals ! 8) = content_key ninth_again \<and>
   count_list (map content_key (deduplicate_and_rank (nine_locals @ [ninth_again])))
     (content_key ninth_again) = 0"
  by (simp add: example_doc_def nine_locals_def ninth_again_def merge_defs)

section \<open>Properties of the quality analysis\<close>

lemma sum_list_const: "\<forall>x \<in> set xs. f x = (c::nat) \<Longrightarrow> sum_list (map f xs) = length xs * c"
  by (induction xs) simp_all

lemma score_lower_bound:
  assumes "docs \<noteq> []"
  shows "20 \<le> quality_score (analyze_retrieval_quality q docs)"
proof -
  let ?avg = "real (sum_list (map (\<lambda>doc. length (page_content doc)) docs)) / real (length docs)"
  have "1 \<le> length docs" using assms by (cases docs) simp_all
  then have "20 \<le> real (length docs * 20)" by simp
  moreover have "0 \<le> ?avg / 20" by simp
  ultimately have "20 \<le> real (length docs * 20) + ?avg / 20" by linarith
  then show ?thesis using assms by (simp add: analyze_retrieval_quality_def Let_def)
qed

text \<open>
  Claim C1, as amended. For a query with exactly 5 retrieved passages, each of content
  length 200, the report has \<open>num_results = 5\<close>, an empty list of recommendations, and
  \<open>quality_score = min(100, 5 * 20 + 200 / 20) = 100\<close>: the score of this function is
  \<open>min(100, 20 * count + meanLength / 20)\<close>.
\<close>

theorem C1_five_passages_report:
  assumes "length docs = 5" and "\<forall>doc \<in> set docs. length (page_content doc) = 200"
  shows "num_results (analyze_retrieval_quality q docs) = 5 \<and>
         avg_content_length (analyze_retrieval_quality q docs) = 200 \<and>
         quality_score (analyze_retrieval_quality q docs) = min 100 (5 * 20 + 200 / 20) \<and>
         quality_score (analyze_retrieval_quality q docs) = 100 \<and>
         recommendations (analyze_retrieval_quality q docs) = []"
proof -
  have ne: "docs \<noteq> []" using assms(1) by auto
  have "sum_list (map (\<lambda>doc. length (page_content doc)) docs) = 1000"
    using sum_list_const [OF assms(2)] assms(1) by simp
  with ne assms(1) show ?thesis
    by (simp add: analyze_retrieval_quality_def Let_def)
qed

text \<open>Witness for C1: five passages of 200 characters for the query of the scenario.\<close>

theorem C1_witness:
  "map (\<lambda>doc. length (page_content doc)) five_passages = [200, 200, 200, 200, 200] \<and>
   num_results (analyze_retrieval_quality (ascii ''present perfect tense'') five_passages) = 5 \<and>
   quality_score (analyze_retrieval_quality (ascii ''present perfect tense'') five_passages) = 100 \<and>
   recommendations (analyze_retrieval_quality (ascii ''present perfect tense'') five_passages) = []"
proof -
  have len: "length five_passages = 5" by (simp add: five_passages_def)
  have all: "\<forall>doc \<in> set five_passages. length (page_content doc) = 200"
    by (simp add: five_passages_def passage_200_def)
  have lens: "map (\<lambda>doc. length (page_content doc)) five_passages = [200, 200, 200, 200, 200]"
    by (simp add: five_passages_def passage_200_def numeral_eq_Suc)
  from C1_five_passages_report [OF len all, of "ascii ''present perfect tense''"] lens
  show ?thesis by blast
qed

text \<open>The score the claim states, 80, is not the score of the report.\<close>

theorem C1_counterexample:
  "quality_score (analyze_retrieval_quality (ascii ''present perfect tense'') five_passages) \<noteq> 80"
  by (simp add: analyze_retrieval_quality_def five_passages_def passage_200_def Let_def)

text \<open>
  Claim C8. For every query, the report of an empty passage list has \<open>quality_score = 0\<close>
  and exactly one recommendation, the one saying that no document was retrieved; the
  report of a non-empty list has a non-zero score.
\<close>

theorem C8_empty_and_nonempty:
  "quality_score (analyze_retrieval_quality q []) = 0 \<and>
   recommendations (analyze_retrieval_quality q []) = [rec_no_documents] \<and>
   (docs \<noteq> [] \<longrightarrow> quality_score (analyze_retrieval_quality q docs) \<noteq> 0)"
proof -
  have "docs \<noteq> [] \<longrightarrow> quality_score (analyze_retrieval_quality q docs) \<noteq> 0"
    using score_lower_bound [of docs q] by auto
  then show ?thesis by (simp add: analyze_retrieval_quality_def)
qed

text \<open>Witness for C8: a single short passage already scores above zero.\<close>

theorem C8_witness:
  "[passage_200] \<noteq> [] \<and>
   quality_score (analyze_retrieval_quality [] [passage_200]) \<noteq> 0 \<and>
   recommendations (analyze_retrieval_quality [] []) = [rec_no_documents]"
  using C8_empty_and_nonempty [of "[]" "[passage_200]"] by simp

section \<open>Properties of the web search\<close>

lemma web_doc_of_result_content:
  "map page_content (web_doc_of_result eq result) =
     filter (\<lambda>c. 50 < length c) [result_get result (ascii ''content'') []]"
  by (auto simp: web_doc_of_result_def Let_def)

lemma web_docs_of_results_content:
  "map page_content (concat (map (web_doc_of_result eq) results)) =
     filter (\<lambda>c. 50 < length c) (map (\<lambda>r. result_get r (ascii ''content'') []) results)"
  by (induction results) (simp_all add: web_doc_of_result_content)

text \<open>
  Claim C6, as amended. The web search keeps a raw result as a passage if and only if its
  content has more than 50 characters: the contents of the passages returned are, engine
  by engine and in order, the contents of the raw results that are longer than 50
  characters. A result with 50 characters or fewer is discarded.
\<close>

theorem C6_kept_iff_longer_than_50:
  "map page_content (web_search lower search_engines q n) =
     concat (map (\<lambda>engine.
       case engine (enhance_query lower q) n of
         None \<Rightarrow> []
       | Some results \<Rightarrow>
           filter (\<lambda>c. 50 < length c) (map (\<lambda>r. result_get r (ascii ''content'') []) results))
       search_engines)"
proof -
  have "map page_content (case e (enhance_query lower q) n of None \<Rightarrow> []
          | Some results \<Rightarrow> concat (map (web_doc_of_result (enhance_query lower q)) results)) =
        (case e (enhance_query lower q) n of None \<Rightarrow> []
          | Some results \<Rightarrow>
              filter (\<lambda>c. 50 < length c) (map (\<lambda>r. result_get r (ascii ''content'') []) results))"
    for e :: search_engine
    by (simp add: web_docs_of_results_content split: option.split)
  then show ?thesis
    by (simp add: web_search_def Let_def map_concat comp_def)
qed

text \<open>
  The claim as stated keeps a result of exactly 50 characters; the guard of the source is
  \<open>len(content) > 50\<close>, and such a result is discarded while one of 51 characters is kept.
\<close>

theorem C6_counterexample:
  "length (replicate 50 (97::nat)) = 50 \<and>
   web_search ascii_lower [fixed_engine [result_with_content (replicate 50 97)]]
     (ascii ''present perfect'') 2 = [] \<and>
   map page_content
     (web_search ascii_lower [fixed_engine [result_with_content (replicate 51 97)]]
        (ascii ''present perfect'') 2) = [replicate 51 97]"
  by (simp add: web_search_def web_doc_of_result_def result_get_def result_with_content_def
      fixed_engine_def ascii_def Let_def)

section \<open>Properties of the conversation memory\<close>

subsection \<open>The history bound\<close>

lemma slice_last: "1 \<le> k \<Longrightarrow> py_slice_from (- k) xs = drop (length xs - nat k) xs"
proof -
  assume k: "1 \<le> k"
  then have "nat (int (length xs) - k) = length xs - nat k" by linarith
  with k show ?thesis by (simp add: py_slice_from_def)
qed

lemma drop_within: "k \<le> length xs \<Longrightarrow> drop k xs @ ys = drop k (xs @ ys)"
  by simp

lemma window_arith:
  fixes a m n :: nat
  assumes "a \<le> m"
  shows "Suc a - (Suc a - m) + n - m + (Suc a - m) = a + Suc n - m"
  using assms by arith

lemma window_drop:
  assumes "length h \<le> m"
  shows "drop (Suc (length h) - (Suc (length h) - m) + n - m) (drop (Suc (length h) - m) ys) =
         drop (length h + Suc n - m) ys"
  using window_arith [OF assms, of n] by (simp only: drop_drop)

lemma add_call_fields:
  "max_history (add_call lower c self) = max_history self"
  "current_session_id (add_call lower c self) = current_session_id self"
  by (cases c; simp add: add_conversation_turn_def Let_def)+

lemma add_call_history:
  assumes "1 \<le> max_history self"
  shows "conversation_history (add_call lower c self) =
     drop (Suc (length (conversation_history self)) - nat (max_history self))
       (conversation_history self @ [call_turn lower (current_session_id self) c])"
proof -
  obtain now uq ar md rd where c: "c = (now, uq, ar, md, rd)" by (cases c) auto
  let ?h = "conversation_history self @ [call_turn lower (current_session_id self) c]"
  show ?thesis
  proof (cases "int (length ?h) > max_history self")
    case True
    then show ?thesis using assms by (simp add: c add_conversation_turn_def Let_def slice_last)
  next
    case False
    then have "Suc (length (conversation_history self)) - nat (max_history self) = 0" by simp
    with False show ?thesis by (simp add: c add_conversation_turn_def Let_def)
  qed
qed

lemma add_turns_history:
  assumes "1 \<le> max_history self"
    and "int (length (conversation_history self)) \<le> max_history self"
  shows "conversation_history (add_turns lower self calls) =
     drop (length (conversation_history self) + length calls - nat (max_history self))
       (conversation_history self @ map (call_turn lower (current_session_id self)) calls)"
  using assms
proof (induction calls arbitrary: self)
  case Nil
  then show ?case by (simp add: add_turns_def)
next
  case (Cons c cs)
  let ?h = "conversation_history self"
  let ?t = "call_turn lower (current_session_id self) c"
  let ?ts = "map (call_turn lower (current_session_id self)) cs"
  let ?m = "nat (max_history self)"
  let ?self' = "add_call lower c self"
  have h': "conversation_history ?self' = drop (Suc (length ?h) - ?m) (?h @ [?t])"
    using Cons.prems(1) by (rule add_call_history)
  have len': "length (conversation_history ?self') = Suc (length ?h) - (Suc (length ?h) - ?m)"
    by (simp add: h')
  have bound': "int (length (conversation_history ?self')) \<le> max_history ?self'"
    using Cons.prems(1) by (simp add: len' add_call_fields)
  have "conversation_history (add_turns lower ?self' cs) =
      drop (length (conversation_history ?self') + length cs - nat (max_history ?self'))
        (conversation_history ?self' @ map (call_turn lower (current_session_id ?self')) cs)"
    using Cons.prems(1) bound' by (intro Cons.IH) (simp_all add: add_call_fields)
  also have "\<dots> = drop (length (conversation_history ?self') + length cs - ?m)
        (drop (Suc (length ?h) - ?m) (?h @ [?t]) @ ?ts)"
    by (simp add: add_call_fields h')
  also have "drop (Suc (length ?h) - ?m) (?h @ [?t]) @ ?ts = drop (Suc (length ?h) - ?m) (?h @ ?t # ?ts)"
    using drop_within [of "Suc (length ?h) - ?m" "?h @ [?t]" ?ts] by simp
  also have "drop (length (conversation_history ?self') + length cs - ?m)
        (drop (Suc (length ?h) - ?m) (?h @ ?t # ?ts)) =
      drop (length ?h + length (c # cs) - ?m) (?h @ ?t # ?ts)"
  proof -
    have "length ?h \<le> ?m" using Cons.prems by linarith
    then show ?thesis unfolding len' list.size(4) by (simp only: window_drop add_Suc_right add_0_right One_nat_def)
  qed
  finally show ?case by (simp add: add_turns_def)
qed

lemma init_memory_fields:
  "max_history (init_memory mh mcl file now stored) = mh"
  "max_context_length (init_memory mh mcl file now stored) = mcl"
  "current_session_id (init_memory mh mcl file now stored) = strftime_session now"
  by (simp_all add: init_memory_def load_history_def split: option.split)

text \<open>The constructor establishes the bound: \<open>_load_history\<close> keeps the last
  \<open>max_history\<close> stored turns.\<close>

lemma init_memory_bound:
  "1 \<le> mh \<Longrightarrow> int (length (conversation_history (init_memory mh mcl file now stored))) \<le> mh"
  by (auto simp: init_memory_def load_history_def slice_last split: option.split)


text \<open>
  Claim C5, as amended. For a memory whose bound \<open>max_history\<close> is at least 1 and whose
  history respects the bound (as it does after construction), after any sequence of
  \<open>add_conversation_turn\<close> calls the history has at most \<open>max_history\<close> turns, and it is
  the last \<open>max_history\<close> turns of the old history followed by the new turns, in
  insertion order: what is evicted is always the oldest turn.
\<close>

theorem C5_history_bound_fifo:
  assumes "1 \<le> max_history self"
    and "int (length (conversation_history self)) \<le> max_history self"
  shows "int (length (conversation_history (add_turns lower self calls))) \<le> max_history self \<and>
         conversation_history (add_turns lower self calls) =
           drop (length (conversation_history self) + length calls - nat (max_history self))
             (conversation_history self @ map (call_turn lower (current_session_id self)) calls)"
proof -
  have h: "conversation_history (add_turns lower self calls) =
      drop (length (conversation_history self) + length calls - nat (max_history self))
        (conversation_history self @ map (call_turn lower (current_session_id self)) calls)"
    using assms by (rule add_turns_history)
  have "length (conversation_history (add_turns lower self calls)) \<le> nat (max_history self)"
    unfolding h by simp
  then have "int (length (conversation_history (add_turns lower self calls))) \<le> max_history self"
    using assms(1) by linarith
  with h show ?thesis by blast
qed

text \<open>
  Witness for C5, the scenario of the specification: eleven calls on a fresh memory with
  \<open>max_history = 10\<close> leave ten turns, those of the last ten calls, and the query of the
  first call is in none of them.
\<close>

theorem C5_witness:
  "1 \<le> max_history (init_memory 10 2000 memory_file_name example_time None) \<and>
   int (length (conversation_history (init_memory 10 2000 memory_file_name example_time None)))
     \<le> max_history (init_memory 10 2000 memory_file_name example_time None) \<and>
   length (conversation_history
     (add_turns ascii_lower (init_memory 10 2000 memory_file_name example_time None) eleven_calls)) = 10 \<and>
   map user_query (conversation_history
     (add_turns ascii_lower (init_memory 10 2000 memory_file_name example_time None) eleven_calls)) =
     map (\<lambda>i. ascii ''question '' @ [97 + i]) [1, 2, 3, 4, 5, 6, 7, 8, 9, 10] \<and>
   ascii ''question a'' \<notin> set (map user_query (conversation_history
     (add_turns ascii_lower (init_memory 10 2000 memory_file_name example_time None) eleven_calls)))"
proof -
  let ?self = "init_memory 10 2000 memory_file_name example_time None"
  have mh: "1 \<le> max_history ?self" by (simp add: init_memory_fields)
  have len: "int (length (conversation_history ?self)) \<le> max_history ?self"
    using init_memory_bound [of 10 2000 memory_file_name example_time None]
    by (simp add: init_memory_fields)
  have empty: "conversation_history ?self = []" by (simp add: init_memory_def load_history_def)
  have uq: "user_query (call_turn lower sid (numbered_call i)) = ascii ''question '' @ [97 + i]"
    for lower sid i by (simp add: numbered_call_def new_turn_def)
  from C5_history_bound_fifo [OF mh len, of ascii_lower eleven_calls]
  have "conversation_history (add_turns ascii_lower ?self eleven_calls) =
      map (call_turn ascii_lower (current_session_id ?self)) (map numbered_call [1, 2, 3, 4, 5, 6, 7, 8, 9, 10])"
    by (simp add: empty eleven_calls_def init_memory_fields)
  then have q: "map user_query (conversation_history (add_turns ascii_lower ?self eleven_calls)) =
      map (\<lambda>i. ascii ''question '' @ [97 + i]) [1, 2, 3, 4, 5, 6, 7, 8, 9, 10]"
    by (simp add: uq)
  have "length (conversation_history (add_turns ascii_lower ?self eleven_calls)) = 10"
    using arg_cong [OF q, of length] by simp
  moreover have "ascii ''question a'' \<notin> set (map user_query (conversation_history
      (add_turns ascii_lower ?self eleven_calls)))"
    unfolding q by (simp add: ascii_def)
  ultimately show ?thesis using mh len q by blast
qed

text \<open>
  The claim as stated covers every bound. With \<open>max_history = 0\<close> the slice
  \<open>history[-0:]\<close> is the whole list, and the history has one turn after one call.
\<close>

theorem C5_counterexample:
  "max_history (init_memory 0 2000 memory_file_name example_time None) = 0 \<and>
   length (conversation_history
     (add_turns ascii_lower (init_memory 0 2000 memory_file_name example_time None)
        [numbered_call 0])) = 1"
  by (simp add: add_turns_def numbered_call_def add_conversation_turn_def init_memory_def
      load_history_def py_slice_from_def Let_def)


subsection \<open>The context string\<close>

lemma collect_parts_prefix: "prefix (collect_parts l c xs) xs"
  by (induction xs arbitrary: c) simp_all

lemma collect_parts_sum:
  "c + int (sum_list (map length (collect_parts l c xs))) \<le> max c l"
proof (induction xs arbitrary: c)
  case Nil
  show ?case by simp
next
  case (Cons x xs)
  show ?case
  proof (cases "c + int (length x) > l")
    case True
    then show ?thesis by simp
  next
    case False
    have "c + int (length x) + int (sum_list (map length (collect_parts l (c + int (length x)) xs)))
        \<le> max (c + int (length x)) l"
      by (rule Cons.IH)
    with False show ?thesis by simp
  qed
qed

lemma collect_parts_stops:
  "length (collect_parts l c xs) < length xs \<Longrightarrow>
     c + int (sum_list (map length (collect_parts l c xs)))
       + int (length (xs ! length (collect_parts l c xs))) > l"
proof (induction xs arbitrary: c)
  case Nil
  then show ?case by simp
next
  case (Cons x xs)
  show ?case
  proof (cases "c + int (length x) > l")
    case True
    then show ?thesis by simp
  next
    case False
    with Cons.prems have "length (collect_parts l (c + int (length x)) xs) < length xs" by simp
    then have "c + int (length x) + int (sum_list (map length (collect_parts l (c + int (length x)) xs)))
        + int (length (xs ! length (collect_parts l (c + int (length x)) xs))) > l"
      by (rule Cons.IH)
    with False show ?thesis by simp
  qed
qed

lemma length_py_join:
  "length (py_join sep ps) = sum_list (map length ps) + length sep * (length ps - 1)"
  by (induction sep ps rule: py_join.induct) simp_all

text \<open>
  Claim C9, as amended. For every history and every \<open>max_length = L\<close> with \<open>L \<ge> 1\<close>,
  the snippets that \<open>get_context_for_query\<close> includes are whole formatted turns, the
  first ones of the ranked list (no snippet is cut); their lengths add up to at most \<open>L\<close>;
  when a ranked turn is left out, the first one left out is one whose snippet would push
  the running total past \<open>L\<close>; and the returned string is the header followed by the
  snippets joined by two newlines, so it exceeds the snippet total only by the header and
  the separators.
\<close>

theorem C9_whole_snippets_within_limit:
  assumes "1 \<le> l"
  shows "prefix (context_parts lower self q (Some l))
           (map format_context_turn (get_relevant_context lower self q)) \<and>
         int (sum_list (map length (context_parts lower self q (Some l)))) \<le> l \<and>
         (length (context_parts lower self q (Some l)) < length (get_relevant_context lower self q) \<longrightarrow>
            int (sum_list (map length (context_parts lower self q (Some l))))
              + int (length (format_context_turn
                  (get_relevant_context lower self q ! length (context_parts lower self q (Some l))))) > l) \<and>
         get_context_for_query lower self q (Some l) =
           (if context_parts lower self q (Some l) = [] then []
            else context_header (length (context_parts lower self q (Some l)))
                 @ py_join [10, 10] (context_parts lower self q (Some l))) \<and>
         length (get_context_for_query lower self q (Some l)) =
           (if context_parts lower self q (Some l) = [] then 0
            else length (context_header (length (context_parts lower self q (Some l))))
                 + sum_list (map length (context_parts lower self q (Some l)))
                 + 2 * (length (context_parts lower self q (Some l)) - 1))"
proof -
  let ?ranked = "map format_context_turn (get_relevant_context lower self q)"
  let ?parts = "context_parts lower self q (Some l)"
  have eff: "effective_max_length (Some l) self = l"
    using assms by (simp add: effective_max_length_def)
  have parts: "?parts = collect_parts l 0 ?ranked"
    by (simp add: context_parts_def eff)
  have p1: "prefix ?parts ?ranked" unfolding parts by (rule collect_parts_prefix)
  have "0 + int (sum_list (map length (collect_parts l 0 ?ranked))) \<le> max 0 l"
    by (rule collect_parts_sum)
  then have p2: "int (sum_list (map length ?parts)) \<le> l" using assms by (simp add: parts)
  have p3: "length ?parts < length (get_relevant_context lower self q) \<longrightarrow>
      int (sum_list (map length ?parts))
        + int (length (format_context_turn (get_relevant_context lower self q ! length ?parts))) > l"
  proof
    assume less: "length ?parts < length (get_relevant_context lower self q)"
    then have "length (collect_parts l 0 ?ranked) < length ?ranked" by (simp add: parts)
    then have "0 + int (sum_list (map length (collect_parts l 0 ?ranked)))
        + int (length (?ranked ! length (collect_parts l 0 ?ranked))) > l"
      by (rule collect_parts_stops)
    with less show "int (sum_list (map length ?parts))
        + int (length (format_context_turn (get_relevant_context lower self q ! length ?parts))) > l"
      by (simp add: parts)
  qed
  have empty: "conversation_history self = [] \<Longrightarrow> ?parts = []"
    by (simp add: parts get_relevant_context_def)
  have p4: "get_context_for_query lower self q (Some l) =
      (if ?parts = [] then [] else context_header (length ?parts) @ py_join [10, 10] ?parts)"
    using empty by (simp add: get_context_for_query_def Let_def)
  have p5: "length (get_context_for_query lower self q (Some l)) =
      (if ?parts = [] then 0
       else length (context_header (length ?parts)) + sum_list (map length ?parts)
            + 2 * (length ?parts - 1))"
    unfolding p4 by (simp add: length_py_join)
  from p1 p2 p3 p4 p5 show ?thesis by blast
qed


subsection \<open>The example memory: two turns without grammar terms\<close>

lemmas keyword_eval = extract_keywords_def english_grammar_terms_def chinese_grammar_terms_def
  ascii_lower_def ascii_def sublist_code Let_def

lemma example_history: "conversation_history example_memory = [hello_turn, thanks_turn]"
  by (simp add: example_memory_def add_turns_def add_conversation_turn_def init_memory_def
      load_history_def hello_turn_def thanks_turn_def Let_def)

lemma example_keywords: "keywords hello_turn = []" "keywords thanks_turn = []"
  by (simp_all add: hello_turn_def thanks_turn_def new_turn_def keyword_eval)

lemma example_turns_differ: "hello_turn \<noteq> thanks_turn"
proof
  assume "hello_turn = thanks_turn"
  then have "user_query hello_turn = user_query thanks_turn" by simp
  then show False by (simp add: hello_turn_def thanks_turn_def new_turn_def ascii_def)
qed

lemma example_scored:
  "scored_turns lower example_memory q = [(2, hello_turn), (1, thanks_turn)]"
  using example_turns_differ
  by (simp add: scored_turns_def example_history py_slice_from_def total_score_def
      list_index_def example_keywords Let_def)

lemma example_ranked:
  "get_relevant_context lower example_memory q = [hello_turn, thanks_turn]"
  by (simp add: get_relevant_context_def example_history example_scored)

lemma example_snippet_lengths:
  "length (format_context_turn hello_turn) = 32"
  "length (format_context_turn thanks_turn) = 34"
  by (simp_all add: format_context_turn_def hello_turn_def thanks_turn_def new_turn_def
      strftime_HM_def zero_pad_def str_nat.simps example_time_def ascii_def)

lemma example_max_context_length: "max_context_length example_memory = 2000"
  by (simp add: example_memory_def add_turns_def add_conversation_turn_def init_memory_def
      load_history_def Let_def)


text \<open>Witness for C9: with a limit of 40 only the first ranked snippet (32 characters)
  fits; the second (34 characters) is left out whole.\<close>

theorem C9_witness:
  "(1::int) \<le> 40 \<and>
   context_parts ascii_lower example_memory (ascii ''more'') (Some 40) = [format_context_turn hello_turn] \<and>
   sum_list (map length (context_parts ascii_lower example_memory (ascii ''more'') (Some 40))) = 32 \<and>
   length (context_parts ascii_lower example_memory (ascii ''more'') (Some 40))
     < length (get_relevant_context ascii_lower example_memory (ascii ''more'')) \<and>
   prefix (context_parts ascii_lower example_memory (ascii ''more'') (Some 40))
     (map format_context_turn (get_relevant_context ascii_lower example_memory (ascii ''more''))) \<and>
   get_context_for_query ascii_lower example_memory (ascii ''more'') (Some 40) =
     context_header 1 @ format_context_turn hello_turn"
proof -
  have l: "(1::int) \<le> 40" by simp
  have parts: "context_parts ascii_lower example_memory (ascii ''more'') (Some 40) =
      [format_context_turn hello_turn]"
    by (simp add: context_parts_def effective_max_length_def example_ranked example_snippet_lengths)
  have less: "length (context_parts ascii_lower example_memory (ascii ''more'') (Some 40))
      < length (get_relevant_context ascii_lower example_memory (ascii ''more''))"
    by (simp add: parts example_ranked)
  from C9_whole_snippets_within_limit [OF l, of ascii_lower example_memory "ascii ''more''"]
    parts less
  show ?thesis by (simp add: example_snippet_lengths)
qed

text \<open>
  The claim as stated covers every \<open>maxLength\<close>. A \<open>max_length\<close> of 0 is replaced by
  the configured \<open>max_context_length\<close> (\<open>max_length or self.max_context_length\<close>), and
  both snippets, 66 characters, are included under a limit of 0.
\<close>

theorem C9_counterexample:
  "sum_list (map length (context_parts ascii_lower example_memory (ascii ''more'') (Some 0))) = 66"
  by (simp add: context_parts_def effective_max_length_def example_ranked example_snippet_lengths
      example_max_context_length)

subsection \<open>The ranking of the turns\<close>

lemma list_index_distinct:
  "distinct xs \<Longrightarrow> i < length xs \<Longrightarrow> list_index xs (xs ! i) = i"
proof (induction xs arbitrary: i)
  case Nil
  then show ?case by simp
next
  case (Cons x xs)
  show ?case
  proof (cases i)
    case 0
    then show ?thesis by (simp add: list_index_def)
  next
    case (Suc k)
    with Cons.prems have k: "k < length xs" and d: "distinct xs" and x: "x \<notin> set xs" by simp_all
    from k x have "x \<noteq> xs ! k" by (metis nth_mem)
    moreover have "list_index xs (xs ! k) = k" using d k by (rule Cons.IH)
    ultimately show ?thesis using Suc by (simp add: list_index_def)
  qed
qed

text \<open>
  What the score does in general: among turns of a history without repeated turns, with
  equal keyword overlap, the turn at the smaller index (the older one) has the strictly
  higher score; the difference is the distance between the two.
\<close>

lemma older_turn_scores_higher:
  assumes "distinct history" and "i < j" and "j < length history"
    and "card (kws \<inter> set (keywords (history ! i))) = card (kws \<inter> set (keywords (history ! j)))"
  shows "total_score history kws (history ! i) = total_score history kws (history ! j) + int (j - i)"
proof -
  have "list_index history (history ! i) = i" using assms by (intro list_index_distinct) simp_all
  moreover have "list_index history (history ! j) = j" using assms by (intro list_index_distinct) simp_all
  ultimately show ?thesis using assms by (simp add: total_score_def Let_def)
qed

text \<open>
  Claim C2, evaluated on the code. In the example memory the two turns have the same
  keyword overlap with the query (none); \<open>recency_score\<close> is
  \<open>len(history) - history.index(turn)\<close>, 2 for the older turn and 1 for the more recent
  one, and the older turn is ranked first.
\<close>

theorem C2_older_turn_ranked_first:
  "conversation_history example_memory = [hello_turn, thanks_turn] \<and>
   card (set (extract_keywords ascii_lower (ascii ''more'')) \<inter> set (keywords hello_turn)) =
     card (set (extract_keywords ascii_lower (ascii ''more'')) \<inter> set (keywords thanks_turn)) \<and>
   scored_turns ascii_lower example_memory (ascii ''more'') = [(2, hello_turn), (1, thanks_turn)] \<and>
   get_relevant_context ascii_lower example_memory (ascii ''more'') = [hello_turn, thanks_turn]"
  by (simp add: example_history example_keywords example_scored example_ranked)

section \<open>Properties of the export\<close>

text \<open>
  Claim C7, as amended. \<open>export_conversation\<close> succeeds for exactly the two format
  strings \<open>"json"\<close> and \<open>"txt"\<close>, returning the JSON and the text serialisation of the
  history; for every other format string it fails with the error
  \<open>ValueError("Unsupported export format")\<close> and serialises nothing: there is no default
  format.
\<close>

theorem C7_export_formats:
  "export_conversation self (ascii ''json'') = Inr (export_as_json self) \<and>
   export_conversation self (ascii ''txt'') = Inr (export_as_text self) \<and>
   (fmt \<noteq> ascii ''json'' \<and> fmt \<noteq> ascii ''txt'' \<longrightarrow>
      export_conversation self fmt = Inl (ValueError (ascii ''Unsupported export format''))) \<and>
   ((\<exists>s. export_conversation self fmt = Inr s) \<longleftrightarrow> fmt = ascii ''json'' \<or> fmt = ascii ''txt'')"
  by (auto simp: export_conversation_def ascii_def)

text \<open>Witness for C7: the format \<open>"xml"\<close> is neither of the two and is refused.\<close>

theorem C7_witness:
  "ascii ''xml'' \<noteq> ascii ''json'' \<and> ascii ''xml'' \<noteq> ascii ''txt'' \<and>
   export_conversation example_memory (ascii ''xml'') =
     Inl (ValueError (ascii ''Unsupported export format''))"
proof -
  have a: "ascii ''xml'' \<noteq> ascii ''json''" by (simp add: ascii_def)
  have b: "ascii ''xml'' \<noteq> ascii ''txt''" by (simp add: ascii_def)
  from C7_export_formats [of example_memory "ascii ''xml''"] a b show ?thesis by blast
qed

text \<open>
  The claim as stated names the second format \<open>text\<close>; the string the code accepts is
  \<open>"txt"\<close>, and \<open>"text"\<close> is refused like any other.
\<close>

theorem C7_counterexample:
  "export_conversation example_memory (ascii ''text'') =
     Inl (ValueError (ascii ''Unsupported export format''))"
  by (simp add: export_conversation_def ascii_def)

end
